theory Spec2Isabelle
  imports Main "HOL-Library.Word"
begin

section \<open>The habit contract: data model\<close>

text \<open>
  A shallow embedding of the Move module \<open>habit::contract\<close>
  (contract/habit/build/habit/sources/contract.move).

  Move integers are unsigned machine integers whose arithmetic aborts the transaction on
  overflow, underflow and division by zero; \<open>u64\<close> is a 64-bit word and every
  arithmetic operation of the source is a checked operation returning an abort or a value.
  An abort (an \<open>assert!\<close> that fails, an \<open>abort\<close>, an arithmetic error) ends the
  entry function with no result: every entry function returns \<open>abort_code + result\<close>,
  and the caller of an aborted function keeps the state it had before the call.
\<close>

type_synonym u8 = "8 word"
type_synonym u64 = "64 word"
type_synonym address = "256 word"
type_synonym ID = nat
type_synonym String = "u8 list"

text \<open>
  The four abort codes of the module, the arithmetic error of the Move virtual machine, and
  the abort of \<open>std::string::utf8\<close> on bytes that are not valid UTF-8.
\<close>

datatype abort_code =
    E_ALREADY_CHECKED_IN
  | E_NOT_OWNER
  | E_INVALID_DATE
  | E_INVALID_GOAL_TYPE
  | ARITHMETIC_ERROR
  | E_INVALID_UTF8

definition GOAL_TYPE_MONTHLY :: u8 where
  "GOAL_TYPE_MONTHLY = 2"

definition MS_PER_DAY :: u64 where
  "MS_PER_DAY = 86400000"

record Habit =
  id' :: ID
  owner :: address
  name :: String
  description :: String
  emoji :: String
  created_at :: u64
  goal_type :: u8
  goal_count :: u64
  total_checkins :: u64
  current_streak :: u64
  longest_streak :: u64
  last_checkin_date :: "u64 option"
  is_public :: bool

record CheckIn =
  checkin_id :: ID
  habit_id :: ID
  date :: u64
  notes' :: "String option"

datatype event =
    HabitCreated ID address String
  | CheckInRecorded ID u64 u64 u64
  | StreakBroken ID u64
  | HabitUpdated ID
  | HabitDeleted ID

text \<open>
  The transaction context: the sender, the epoch timestamp in milliseconds, and the
  identifier that \<open>object::new\<close> hands out in this transaction (each entry function of the
  module creates at most one object).
\<close>

record TxContext =
  sender :: address
  epoch_timestamp_ms :: u64
  fresh_id :: ID

section \<open>Checked arithmetic and strings\<close>

definition add_u64 :: "u64 \<Rightarrow> u64 \<Rightarrow> abort_code + u64" where
  "add_u64 a b = (if unat a + unat b < 2 ^ 64 then Inr (a + b) else Inl ARITHMETIC_ERROR)"

definition sub_u64 :: "u64 \<Rightarrow> u64 \<Rightarrow> abort_code + u64" where
  "sub_u64 a b = (if b \<le> a then Inr (a - b) else Inl ARITHMETIC_ERROR)"

definition mul_u64 :: "u64 \<Rightarrow> u64 \<Rightarrow> abort_code + u64" where
  "mul_u64 a b = (if unat a * unat b < 2 ^ 64 then Inr (a * b) else Inl ARITHMETIC_ERROR)"

definition div_u64 :: "u64 \<Rightarrow> u64 \<Rightarrow> abort_code + u64" where
  "div_u64 a b = (if b = 0 then Inl ARITHMETIC_ERROR else Inr (a div b))"

text \<open>
  \<open>string::utf8(bytes)\<close> wraps the bytes as a \<open>String\<close> and aborts when the native
  \<open>internal_check_utf8\<close> rejects them. The native check is not part of the module: it is the
  parameter \<open>check_utf8\<close> of every function that converts bytes.
\<close>

definition utf8 :: "(u8 list \<Rightarrow> bool) \<Rightarrow> u8 list \<Rightarrow> abort_code + String" where
  "utf8 check_utf8 bytes = (if check_utf8 bytes then Inr bytes else Inl E_INVALID_UTF8)"

section \<open>Helper functions\<close>

text \<open>
  Sequencing of a computation that may abort: the first abort ends the function, as in the
  source, where no statement after an abort runs.
\<close>

definition and_then :: "'e + 'a \<Rightarrow> ('a \<Rightarrow> 'e + 'b) \<Rightarrow> 'e + 'b" where
  "and_then m f = (case m of Inl e \<Rightarrow> Inl e | Inr v \<Rightarrow> f v)"

text \<open>
  \<open>get_date_timestamp\<close>: \<open>timestamp_ms - (timestamp_ms % MS_PER_DAY)\<close>. The divisor is
  the non-zero constant and the remainder is at most the timestamp
  (lemma \<open>get_date_timestamp_no_abort\<close>), so neither operation can abort and the
  function is a plain value.
\<close>

definition get_date_timestamp :: "u64 \<Rightarrow> u64" where
  "get_date_timestamp timestamp_ms = timestamp_ms - (timestamp_ms mod MS_PER_DAY)"

section \<open>Entry functions\<close>

text \<open>
  \<open>create_habit\<close>: the goal type is validated first, then the record is built (the three
  byte vectors converted in the order name, description, emoji), shared, and a
  \<open>HabitCreated\<close> event emitted. The result is the shared habit, the returned id and the
  events.
\<close>

definition create_habit ::
  "(u8 list \<Rightarrow> bool) \<Rightarrow> u8 list \<Rightarrow> u8 list \<Rightarrow> u8 list \<Rightarrow> u8 \<Rightarrow> u64 \<Rightarrow> bool \<Rightarrow> TxContext
    \<Rightarrow> abort_code + (Habit \<times> ID \<times> event list)" where
  "create_habit check_utf8 name_bytes description_bytes emoji_bytes gt gc pub ctx =
     (if \<not> gt \<le> GOAL_TYPE_MONTHLY then Inl E_INVALID_GOAL_TYPE
      else
        and_then (utf8 check_utf8 name_bytes) (\<lambda>nm.
        and_then (utf8 check_utf8 description_bytes) (\<lambda>ds.
        and_then (utf8 check_utf8 emoji_bytes) (\<lambda>em.
          let habit = \<lparr> id' = fresh_id ctx,
                        owner = sender ctx,
                        name = nm,
                        description = ds,
                        emoji = em,
                        created_at = epoch_timestamp_ms ctx,
                        goal_type = gt,
                        goal_count = gc,
                        total_checkins = 0,
                        current_streak = 0,
                        longest_streak = 0,
                        last_checkin_date = None,
                        is_public = pub \<rparr>;
              habit_id = id' habit
          in Inr (habit, habit_id, [HabitCreated habit_id (sender ctx) nm])))))"

text \<open>
  The streak logic of \<open>check_in\<close> (the \<open>if\<close> on \<open>last_checkin_date\<close> that follows the
  computation of \<open>yesterday\<close>): the habit with its streak fields updated and the events
  emitted there, or an abort.
\<close>

definition update_streak :: "Habit \<Rightarrow> u64 \<Rightarrow> abort_code + (Habit \<times> event list)" where
  "update_streak habit yesterday =
     (case last_checkin_date habit of
        Some last_date \<Rightarrow>
          if last_date = yesterday then
            and_then (add_u64 (current_streak habit) 1) (\<lambda>s.
              Inr (habit\<lparr>current_streak := s\<rparr>, []))
          else if last_date < yesterday then
            (let habit1 = (if current_streak habit > longest_streak habit
                           then habit\<lparr>longest_streak := current_streak habit\<rparr>
                           else habit);
                 previous_streak = current_streak habit1;
                 habit2 = habit1\<lparr>current_streak := 1\<rparr>
             in Inr (habit2, [StreakBroken (id' habit2) previous_streak]))
          else Inl E_INVALID_DATE
      | None \<Rightarrow> Inr (habit\<lparr>current_streak := 1\<rparr>, []))"

text \<open>
  The notes of a check-in: an empty vector is no notes, anything else is converted.
\<close>

definition notes_option :: "(u8 list \<Rightarrow> bool) \<Rightarrow> u8 list \<Rightarrow> abort_code + String option" where
  "notes_option check_utf8 notes_bytes =
     (if length notes_bytes > 0
      then and_then (utf8 check_utf8 notes_bytes) (\<lambda>s. Inr (Some s))
      else Inr None)"

text \<open>
  The statistics of \<open>check_in\<close>: the total, the date of the last check-in, and the
  longest streak where the current one is better.
\<close>

definition update_statistics :: "Habit \<Rightarrow> u64 \<Rightarrow> abort_code + Habit" where
  "update_statistics habit today =
     and_then (add_u64 (total_checkins habit) 1) (\<lambda>tc.
       let habit1 = habit\<lparr>total_checkins := tc, last_checkin_date := Some today\<rparr>
       in Inr (if current_streak habit1 > longest_streak habit1
               then habit1\<lparr>longest_streak := current_streak habit1\<rparr>
               else habit1))"

text \<open>
  \<open>check_in\<close>, in the order of the source: the already-checked-in assertion, the
  subtraction \<open>today - MS_PER_DAY\<close>, the streak logic, the statistics, the notes, the
  receipt (transferred to the sender) and the \<open>CheckInRecorded\<close> event. The result is
  the updated habit, the receipt with its new owner, and the events in emission order.
\<close>

definition check_in ::
  "(u8 list \<Rightarrow> bool) \<Rightarrow> Habit \<Rightarrow> u8 list \<Rightarrow> TxContext
    \<Rightarrow> abort_code + (Habit \<times> (address \<times> CheckIn) \<times> event list)" where
  "check_in check_utf8 habit notes_bytes ctx =
     (let now = epoch_timestamp_ms ctx;
          today = get_date_timestamp now
      in if (case last_checkin_date habit of
               Some last_date \<Rightarrow> \<not> last_date \<noteq> today
             | None \<Rightarrow> False)
         then Inl E_ALREADY_CHECKED_IN
         else
           and_then (sub_u64 today MS_PER_DAY) (\<lambda>yesterday.
           and_then (update_streak habit yesterday) (\<lambda>(habit1, evs).
           and_then (update_statistics habit1 today) (\<lambda>habit2.
           and_then (notes_option check_utf8 notes_bytes) (\<lambda>notes_opt.
             let checkin = \<lparr> checkin_id = fresh_id ctx,
                             habit_id = id' habit2,
                             date = today,
                             notes' = notes_opt \<rparr>
             in Inr (habit2, (sender ctx, checkin),
                     evs @ [CheckInRecorded (id' habit2) today
                              (current_streak habit2) (total_checkins habit2)]))))))"

text \<open>
  The goal type of \<open>update_habit\<close>: validated where it is supplied, then written.
\<close>

definition update_goal_type :: "Habit \<Rightarrow> u8 option \<Rightarrow> abort_code + Habit" where
  "update_goal_type habit goal_type_opt =
     (case goal_type_opt of
        Some gt \<Rightarrow> if \<not> gt \<le> GOAL_TYPE_MONTHLY then Inl E_INVALID_GOAL_TYPE
                   else Inr (habit\<lparr>goal_type := gt\<rparr>)
      | None \<Rightarrow> Inr habit)"

text \<open>
  \<open>update_habit\<close>: the owner assertion, then the six optional fields in source order; the
  goal type is validated where it is reached, after name, description and emoji were
  written to the habit.
\<close>

definition update_habit ::
  "Habit \<Rightarrow> String option \<Rightarrow> String option \<Rightarrow> String option \<Rightarrow> u8 option \<Rightarrow> u64 option
    \<Rightarrow> bool option \<Rightarrow> TxContext \<Rightarrow> abort_code + (Habit \<times> event list)" where
  "update_habit habit name_opt description_opt emoji_opt goal_type_opt goal_count_opt
       is_public_opt ctx =
     (if \<not> owner habit = sender ctx then Inl E_NOT_OWNER
      else
        let habit1 = (case name_opt of Some v \<Rightarrow> habit\<lparr>name := v\<rparr> | None \<Rightarrow> habit);
            habit2 = (case description_opt of
                        Some v \<Rightarrow> habit1\<lparr>description := v\<rparr> | None \<Rightarrow> habit1);
            habit3 = (case emoji_opt of Some v \<Rightarrow> habit2\<lparr>emoji := v\<rparr> | None \<Rightarrow> habit2)
        in and_then (update_goal_type habit3 goal_type_opt) (\<lambda>habit4.
             let habit5 = (case goal_count_opt of
                             Some v \<Rightarrow> habit4\<lparr>goal_count := v\<rparr> | None \<Rightarrow> habit4);
                 habit6 = (case is_public_opt of
                             Some v \<Rightarrow> habit5\<lparr>is_public := v\<rparr> | None \<Rightarrow> habit5)
             in Inr (habit6, [HabitUpdated (id' habit6)])))"

text \<open>
  \<open>delete_habit\<close> consumes the habit: on success nothing of it is left, and the result is
  the event.
\<close>

definition delete_habit :: "Habit \<Rightarrow> TxContext \<Rightarrow> abort_code + event list" where
  "delete_habit habit ctx =
     (if \<not> owner habit = sender ctx then Inl E_NOT_OWNER
      else let habit_id = id' habit in Inr [HabitDeleted habit_id])"

section \<open>View functions\<close>

definition get_habit_info ::
  "Habit \<Rightarrow> address \<times> String \<times> String \<times> String \<times> u64 \<times> u8 \<times> u64 \<times> u64 \<times> u64 \<times> u64 \<times> bool" where
  "get_habit_info habit =
     (owner habit, name habit, description habit, emoji habit, created_at habit,
      goal_type habit, goal_count habit, total_checkins habit, current_streak habit,
      longest_streak habit, is_public habit)"

definition get_completion_rate :: "Habit \<Rightarrow> u64 \<Rightarrow> abort_code + u64" where
  "get_completion_rate habit period_days =
     (if total_checkins habit = 0 \<or> period_days = 0 then Inr 0
      else
        and_then (mul_u64 period_days (goal_count habit)) (\<lambda>expected.
          if expected = 0 then Inr 0
          else
            and_then (mul_u64 (total_checkins habit) 100) (\<lambda>p.
            and_then (div_u64 p expected) (\<lambda>rate.
              if rate > 100 then Inr 100 else Inr rate))))"

definition can_check_in_today :: "Habit \<Rightarrow> TxContext \<Rightarrow> bool" where
  "can_check_in_today habit ctx =
     (let now = epoch_timestamp_ms ctx;
          today = get_date_timestamp now
      in case last_checkin_date habit of
           Some last_date \<Rightarrow> last_date \<noteq> today
         | None \<Rightarrow> True)"

definition get_days_since_creation :: "Habit \<Rightarrow> TxContext \<Rightarrow> abort_code + u64" where
  "get_days_since_creation habit ctx =
     (let now = epoch_timestamp_ms ctx;
          created = get_date_timestamp (created_at habit);
          current = get_date_timestamp now
      in if current < created then Inr 0
         else and_then (sub_u64 current created) (\<lambda>d. div_u64 d MS_PER_DAY))"

section \<open>Transactions on the ledger\<close>

text \<open>
  The entry functions run as transactions of the ledger. The part of the ledger the module
  touches: the shared \<open>Habit\<close> objects by id, the \<open>CheckIn\<close> receipts with the address
  each was transferred to, the events emitted so far, and the object ids handed out so far.
  A transaction that aborts leaves the ledger as it was; a transaction that names a habit
  the ledger does not hold is refused before the module runs.
\<close>

record ledger =
  habits :: "ID \<rightharpoonup> Habit"
  receipts :: "(address \<times> CheckIn) list"
  events :: "event list"
  used_ids :: "ID set"

definition genesis :: ledger where
  "genesis = \<lparr> habits = Map.empty, receipts = [], events = [], used_ids = {} \<rparr>"

datatype call =
    Create_habit "u8 list" "u8 list" "u8 list" u8 u64 bool
  | Check_in ID "u8 list"
  | Update_habit ID "String option" "String option" "String option" "u8 option"
      "u64 option" "bool option"
  | Delete_habit ID

datatype status = Success | Aborted abort_code | No_such_habit

fun execute :: "(u8 list \<Rightarrow> bool) \<Rightarrow> call \<Rightarrow> TxContext \<Rightarrow> ledger \<Rightarrow> status \<times> ledger" where
  "execute check_utf8 (Create_habit nm ds em gt gc pub) ctx l =
     (case create_habit check_utf8 nm ds em gt gc pub ctx of
        Inl e \<Rightarrow> (Aborted e, l)
      | Inr (habit, hid, evs) \<Rightarrow>
          (Success, l\<lparr> habits := (habits l)(hid \<mapsto> habit),
                       events := events l @ evs,
                       used_ids := insert (fresh_id ctx) (used_ids l) \<rparr>))"
| "execute check_utf8 (Check_in hid notes_bytes) ctx l =
     (case habits l hid of
        None \<Rightarrow> (No_such_habit, l)
      | Some habit \<Rightarrow>
          (case check_in check_utf8 habit notes_bytes ctx of
             Inl e \<Rightarrow> (Aborted e, l)
           | Inr (habit', receipt, evs) \<Rightarrow>
               (Success, l\<lparr> habits := (habits l)(hid \<mapsto> habit'),
                            receipts := receipts l @ [receipt],
                            events := events l @ evs,
                            used_ids := insert (fresh_id ctx) (used_ids l) \<rparr>)))"
| "execute check_utf8 (Update_habit hid nm ds em gt gc pub) ctx l =
     (case habits l hid of
        None \<Rightarrow> (No_such_habit, l)
      | Some habit \<Rightarrow>
          (case update_habit habit nm ds em gt gc pub ctx of
             Inl e \<Rightarrow> (Aborted e, l)
           | Inr (habit', evs) \<Rightarrow>
               (Success, l\<lparr> habits := (habits l)(hid \<mapsto> habit'),
                            events := events l @ evs \<rparr>)))"
| "execute check_utf8 (Delete_habit hid) ctx l =
     (case habits l hid of
        None \<Rightarrow> (No_such_habit, l)
      | Some habit \<Rightarrow>
          (case delete_habit habit ctx of
             Inl e \<Rightarrow> (Aborted e, l)
           | Inr evs \<Rightarrow>
               (Success, l\<lparr> habits := (habits l)(hid := None),
                            events := events l @ evs \<rparr>)))"

text \<open>
  The reachable ledgers, each with the log of the transactions that led to it: the call,
  its context and its status. The ledger hands every transaction an object id it never
  handed out before.
\<close>

inductive history ::
  "(u8 list \<Rightarrow> bool) \<Rightarrow> (call \<times> TxContext \<times> status) list \<Rightarrow> ledger \<Rightarrow> bool"
  for check_utf8 :: "u8 list \<Rightarrow> bool" where
  start: "history check_utf8 [] genesis"
| step: "history check_utf8 log l \<Longrightarrow> fresh_id ctx \<notin> used_ids l \<Longrightarrow>
         history check_utf8 (log @ [(c, ctx, fst (execute check_utf8 c ctx l))])
           (snd (execute check_utf8 c ctx l))"

text \<open>
  The successful \<open>check_in\<close> calls on a habit in a log, the receipts issued for it, and
  the events of a kind about it.
\<close>

fun successful_check_in :: "ID \<Rightarrow> call \<times> TxContext \<times> status \<Rightarrow> bool" where
  "successful_check_in hid (Check_in hid' notes_bytes, ctx, Success) = (hid' = hid)"
| "successful_check_in hid other = False"

definition check_ins_of :: "ID \<Rightarrow> (call \<times> TxContext \<times> status) list \<Rightarrow> nat" where
  "check_ins_of hid log = length (filter (successful_check_in hid) log)"

definition receipts_of :: "ID \<Rightarrow> ledger \<Rightarrow> nat" where
  "receipts_of hid l = length (filter (\<lambda>r. habit_id (snd r) = hid) (receipts l))"

fun is_streak_broken :: "event \<Rightarrow> bool" where
  "is_streak_broken (StreakBroken hid previous_streak) = True"
| "is_streak_broken other = False"

text \<open>
  The invariant of the reachable ledgers: a habit is stored under its own id, an id in use
  was handed out, the current streak is at most the longest, the total is the number of
  successful check-ins, each of which issued one receipt, and an id not yet handed out has
  no check-in.
\<close>

definition ledger_inv :: "(call \<times> TxContext \<times> status) list \<Rightarrow> ledger \<Rightarrow> bool" where
  "ledger_inv log l \<longleftrightarrow>
     (\<forall>hid h. habits l hid = Some h \<longrightarrow>
        id' h = hid \<and> hid \<in> used_ids l \<and> current_streak h \<le> longest_streak h \<and>
        unat (total_checkins h) = check_ins_of hid log) \<and>
     (\<forall>hid. receipts_of hid l = check_ins_of hid log) \<and>
     (\<forall>hid. hid \<notin> used_ids l \<longrightarrow> check_ins_of hid log = 0)"

section \<open>Example inputs\<close>

text \<open>
  A stand-in for the native UTF-8 check on the examples below: it accepts the byte vectors
  made of ASCII bytes, which are valid UTF-8.
\<close>

definition ascii_check :: "u8 list \<Rightarrow> bool" where
  "ascii_check bytes = list_all (\<lambda>b. b < 128) bytes"

definition ctx_of :: "address \<Rightarrow> u64 \<Rightarrow> ID \<Rightarrow> TxContext" where
  "ctx_of who now_ms new_id = \<lparr> sender = who, epoch_timestamp_ms = now_ms, fresh_id = new_id \<rparr>"

text \<open>
  A habit as \<open>create_habit\<close> makes it (daily goal, goal count 1, created by address 1 at
  time 0 with id 0), and the same habit after check-ins have moved its counters.
\<close>

definition new_habit :: Habit where
  "new_habit = \<lparr> id' = 0, owner = 1, name = [], description = [], emoji = [],
                  created_at = 0, goal_type = 0, goal_count = 1, total_checkins = 0,
                  current_streak = 0, longest_streak = 0, last_checkin_date = None,
                  is_public = True \<rparr>"

definition habit_with :: "u64 \<Rightarrow> u64 \<Rightarrow> u64 \<Rightarrow> u64 option \<Rightarrow> Habit" where
  "habit_with n_total n_streak n_longest last_day =
     new_habit\<lparr> total_checkins := n_total, current_streak := n_streak,
                 longest_streak := n_longest, last_checkin_date := last_day \<rparr>"

text \<open>
  Running a list of transactions on a ledger, and the scenario of the specification:
  a daily habit with goal count 1, then check-ins at 0, 86400000, 172800000 and 432000000
  milliseconds.
\<close>

fun run :: "(u8 list \<Rightarrow> bool) \<Rightarrow> (call \<times> TxContext) list \<Rightarrow> ledger \<Rightarrow> ledger" where
  "run check_utf8 [] l = l"
| "run check_utf8 ((c, ctx) # txs) l = run check_utf8 txs (snd (execute check_utf8 c ctx l))"

text \<open>
  The log of such a run, and whether each of its transactions gets an object id that was
  not handed out before.
\<close>

fun run_log ::
  "(u8 list \<Rightarrow> bool) \<Rightarrow> (call \<times> TxContext) list \<Rightarrow> ledger \<Rightarrow> (call \<times> TxContext \<times> status) list"
  where
  "run_log check_utf8 [] l = []"
| "run_log check_utf8 ((c, ctx) # txs) l =
     (c, ctx, fst (execute check_utf8 c ctx l))
       # run_log check_utf8 txs (snd (execute check_utf8 c ctx l))"

fun fresh_along :: "(u8 list \<Rightarrow> bool) \<Rightarrow> (call \<times> TxContext) list \<Rightarrow> ledger \<Rightarrow> bool" where
  "fresh_along check_utf8 [] l = True"
| "fresh_along check_utf8 ((c, ctx) # txs) l =
     (fresh_id ctx \<notin> used_ids l \<and> fresh_along check_utf8 txs (snd (execute check_utf8 c ctx l)))"

definition scenario :: "(call \<times> TxContext) list" where
  "scenario =
     [(Create_habit [] [] [] 0 1 True, ctx_of 1 0 0),
      (Check_in 0 [], ctx_of 1 0 1),
      (Check_in 0 [], ctx_of 1 86400000 2),
      (Check_in 0 [], ctx_of 1 172800000 3),
      (Check_in 0 [], ctx_of 1 432000000 4)]"

section \<open>Basic facts\<close>

lemma get_date_timestamp_no_abort: "timestamp_ms mod MS_PER_DAY \<le> timestamp_ms"
  by (simp add: word_le_nat_alt unat_mod)


lemma add_u64_Inr: "add_u64 a b = Inr c \<Longrightarrow> unat c = unat a + unat b"
  by (auto simp: add_u64_def unat_word_ariths split: if_splits)

lemma and_then_Inr: "and_then m f = Inr r \<longleftrightarrow> (\<exists>v. m = Inr v \<and> f v = Inr r)"
  by (cases m) (simp_all add: and_then_def)

lemma and_then_Inl: "and_then m f = Inl e \<longleftrightarrow> (m = Inl e \<or> (\<exists>v. m = Inr v \<and> f v = Inl e))"
  by (cases m) (simp_all add: and_then_def)

lemma update_streak_Inr:
  assumes "update_streak h y = Inr (h1, evs)"
  shows "id' h1 = id' h" and "owner h1 = owner h" and "total_checkins h1 = total_checkins h"
    and "longest_streak h \<le> longest_streak h1"
  using assms
  by (auto simp: update_streak_def and_then_Inr Let_def split: option.splits if_splits)

lemma update_statistics_Inr:
  assumes "update_statistics h today = Inr h2"
  shows "id' h2 = id' h" and "owner h2 = owner h"
    and "unat (total_checkins h2) = unat (total_checkins h) + 1"
    and "longest_streak h \<le> longest_streak h2"
    and "current_streak h2 \<le> longest_streak h2"
    and "current_streak h2 = current_streak h"
    and "last_checkin_date h2 = Some today"
proof -
  from assms obtain tc where tc: "add_u64 (total_checkins h) 1 = Inr tc"
    and h2: "h2 = (if current_streak h > longest_streak h
                   then h\<lparr>total_checkins := tc, last_checkin_date := Some today,
                          longest_streak := current_streak h\<rparr>
                   else h\<lparr>total_checkins := tc, last_checkin_date := Some today\<rparr>)"
    by (auto simp: update_statistics_def and_then_Inr Let_def)
  have n: "unat tc = unat (total_checkins h) + 1"
    using add_u64_Inr[OF tc] by simp
  show "id' h2 = id' h" "owner h2 = owner h" "current_streak h2 = current_streak h"
    "last_checkin_date h2 = Some today"
    by (simp_all add: h2)
  show "unat (total_checkins h2) = unat (total_checkins h) + 1"
    using n by (simp add: h2)
  show "longest_streak h \<le> longest_streak h2" by (simp add: h2 less_imp_le)
  show "current_streak h2 \<le> longest_streak h2" by (simp add: h2 not_less)
qed


lemma check_in_unfold:
  "check_in U h n ctx =
     (if (case last_checkin_date h of
            Some last_date \<Rightarrow> \<not> last_date \<noteq> get_date_timestamp (epoch_timestamp_ms ctx)
          | None \<Rightarrow> False)
      then Inl E_ALREADY_CHECKED_IN
      else and_then (sub_u64 (get_date_timestamp (epoch_timestamp_ms ctx)) MS_PER_DAY) (\<lambda>y.
           and_then (update_streak h y) (\<lambda>p.
           and_then (update_statistics (fst p) (get_date_timestamp (epoch_timestamp_ms ctx))) (\<lambda>h2.
           and_then (notes_option U n) (\<lambda>no.
             Inr (h2,
                  (sender ctx, \<lparr> checkin_id = fresh_id ctx, habit_id = id' h2,
                       date = get_date_timestamp (epoch_timestamp_ms ctx), notes' = no \<rparr>),
                  snd p @ [CheckInRecorded (id' h2) (get_date_timestamp (epoch_timestamp_ms ctx))
                      (current_streak h2) (total_checkins h2)]))))))"
  by (simp add: check_in_def Let_def split_def)

lemma check_in_InrD:
  assumes "check_in U h n ctx = Inr (h', r, evs)"
  shows "\<exists>y h1 evs1 no.
      sub_u64 (get_date_timestamp (epoch_timestamp_ms ctx)) MS_PER_DAY = Inr y \<and>
      update_streak h y = Inr (h1, evs1) \<and>
      update_statistics h1 (get_date_timestamp (epoch_timestamp_ms ctx)) = Inr h' \<and>
      notes_option U n = Inr no \<and>
      r = (sender ctx, \<lparr> checkin_id = fresh_id ctx, habit_id = id' h',
                          date = get_date_timestamp (epoch_timestamp_ms ctx), notes' = no \<rparr>) \<and>
      evs = evs1 @ [CheckInRecorded (id' h') (get_date_timestamp (epoch_timestamp_ms ctx))
                      (current_streak h') (total_checkins h')]"
  using assms unfolding check_in_unfold
  by (cases "case last_checkin_date h of
            Some last_date \<Rightarrow> \<not> last_date \<noteq> get_date_timestamp (epoch_timestamp_ms ctx)
          | None \<Rightarrow> False")
     (simp_all add: and_then_Inr, force)

lemma check_in_Inr:
  assumes "check_in U h n ctx = Inr (h', r, evs)"
  shows "id' h' = id' h" and "owner h' = owner h"
    and "unat (total_checkins h') = unat (total_checkins h) + 1"
    and "current_streak h' \<le> longest_streak h'"
    and "longest_streak h \<le> longest_streak h'"
    and "habit_id (snd r) = id' h"
    and "last_checkin_date h' = Some (get_date_timestamp (epoch_timestamp_ms ctx))"
proof -
  from check_in_InrD[OF assms] obtain y h1 evs1 no where
    h1: "update_streak h y = Inr (h1, evs1)"
    and h': "update_statistics h1 (get_date_timestamp (epoch_timestamp_ms ctx)) = Inr h'"
    and r: "r = (sender ctx, \<lparr> checkin_id = fresh_id ctx, habit_id = id' h',
                          date = get_date_timestamp (epoch_timestamp_ms ctx), notes' = no \<rparr>)"
    by blast
  note u = update_streak_Inr[OF h1] and s = update_statistics_Inr[OF h']
  show "id' h' = id' h" using u s by simp
  then show "habit_id (snd r) = id' h" using r by simp
  show "owner h' = owner h" using u s by simp
  show "unat (total_checkins h') = unat (total_checkins h) + 1" using u s by simp
  show "current_streak h' \<le> longest_streak h'" using s by simp
  show "longest_streak h \<le> longest_streak h'" using u(4) s(4) by simp
  show "last_checkin_date h' = Some (get_date_timestamp (epoch_timestamp_ms ctx))"
    using s by simp
qed

lemma update_habit_unfold:
  "update_habit h a b c d e f ctx =
     (if owner h \<noteq> sender ctx then Inl E_NOT_OWNER
      else if (case d of Some gt \<Rightarrow> \<not> gt \<le> GOAL_TYPE_MONTHLY | None \<Rightarrow> False)
      then Inl E_INVALID_GOAL_TYPE
      else Inr (h\<lparr> name := (case a of Some v \<Rightarrow> v | None \<Rightarrow> name h),
                   description := (case b of Some v \<Rightarrow> v | None \<Rightarrow> description h),
                   emoji := (case c of Some v \<Rightarrow> v | None \<Rightarrow> emoji h),
                   goal_type := (case d of Some v \<Rightarrow> v | None \<Rightarrow> goal_type h),
                   goal_count := (case e of Some v \<Rightarrow> v | None \<Rightarrow> goal_count h),
                   is_public := (case f of Some v \<Rightarrow> v | None \<Rightarrow> is_public h) \<rparr>,
                [HabitUpdated (id' h)]))"
  by (cases a; cases b; cases c; cases d; cases e; cases f;
      simp add: update_habit_def update_goal_type_def and_then_def)

lemma create_habit_unfold:
  "create_habit U a b c gt gc pub ctx =
     (if \<not> gt \<le> GOAL_TYPE_MONTHLY then Inl E_INVALID_GOAL_TYPE
      else if \<not> U a \<or> \<not> U b \<or> \<not> U c then Inl E_INVALID_UTF8
      else Inr (\<lparr> id' = fresh_id ctx, owner = sender ctx, name = a, description = b,
                   emoji = c, created_at = epoch_timestamp_ms ctx, goal_type = gt,
                   goal_count = gc, total_checkins = 0, current_streak = 0,
                   longest_streak = 0, last_checkin_date = None, is_public = pub \<rparr>,
                fresh_id ctx, [HabitCreated (fresh_id ctx) (sender ctx) a]))"
  by (simp add: create_habit_def utf8_def and_then_def Let_def)

lemma check_ins_of_snoc:
  "check_ins_of hid (log @ [x]) = check_ins_of hid log + (if successful_check_in hid x then 1 else 0)"
  by (simp add: check_ins_of_def)

lemma check_ins_of_snoc_other [simp]:
  "st \<noteq> Success \<Longrightarrow> check_ins_of hid (log @ [(c, ctx, st)]) = check_ins_of hid log"
  "check_ins_of hid (log @ [(Create_habit a b c' d e f, ctx, st)]) = check_ins_of hid log"
  "check_ins_of hid (log @ [(Update_habit i a1 b1 c1 d1 e1 f1, ctx, st)]) = check_ins_of hid log"
  "check_ins_of hid (log @ [(Delete_habit i, ctx, st)]) = check_ins_of hid log"
  "check_ins_of hid (log @ [(Check_in i n, ctx, Success)]) = check_ins_of hid log + (if i = hid then 1 else 0)"
  by (cases c; cases st; simp add: check_ins_of_snoc)+

lemma inv_create:
  assumes inv: "ledger_inv log l" and fresh: "fresh_id ctx \<notin> used_ids l"
  shows "ledger_inv (log @ [(Create_habit a b c d e f, ctx, fst (execute U (Create_habit a b c d e f) ctx l))])
           (snd (execute U (Create_habit a b c d e f) ctx l))"
  using inv fresh
  by (auto simp: ledger_inv_def create_habit_unfold receipts_of_def)

lemma inv_update:
  assumes inv: "ledger_inv log l"
  shows "ledger_inv (log @ [(Update_habit i a b c d e f, ctx, fst (execute U (Update_habit i a b c d e f) ctx l))])
           (snd (execute U (Update_habit i a b c d e f) ctx l))"
  using inv
  by (auto simp: ledger_inv_def update_habit_unfold receipts_of_def split: option.splits)

lemma inv_delete:
  assumes inv: "ledger_inv log l"
  shows "ledger_inv (log @ [(Delete_habit i, ctx, fst (execute U (Delete_habit i) ctx l))])
           (snd (execute U (Delete_habit i) ctx l))"
  using inv
  by (auto simp: ledger_inv_def delete_habit_def receipts_of_def split: option.splits)

lemma inv_check_in:
  assumes inv: "ledger_inv log l" and fresh: "fresh_id ctx \<notin> used_ids l"
  shows "ledger_inv (log @ [(Check_in i n, ctx, fst (execute U (Check_in i n) ctx l))])
           (snd (execute U (Check_in i n) ctx l))"
proof (cases "habits l i")
  case None
  then show ?thesis using inv by (simp add: ledger_inv_def receipts_of_def)
next
  case (Some h)
  note h = Some
  show ?thesis
  proof (cases "check_in U h n ctx")
    case (Inl e)
    then show ?thesis using inv h by (simp add: ledger_inv_def receipts_of_def)
  next
    case (Inr res)
    then obtain h' r evs where res: "check_in U h n ctx = Inr (h', r, evs)"
      by (cases res) auto
    note ci = check_in_Inr[OF res]
    from inv h have hi: "id' h = i" "i \<in> used_ids l" "unat (total_checkins h) = check_ins_of i log"
      by (auto simp: ledger_inv_def)
    have ex: "execute U (Check_in i n) ctx l =
        (Success, l\<lparr> habits := (habits l)(i \<mapsto> h'), receipts := receipts l @ [r],
                     events := events l @ evs,
                     used_ids := insert (fresh_id ctx) (used_ids l) \<rparr>)"
      using h res by simp
    have rc: "habit_id (snd r) = i" using ci(6) hi(1) by simp
    show ?thesis
      unfolding ex fst_conv snd_conv ledger_inv_def
    proof (intro conjI allI impI)
      fix hid assume "hid \<notin> used_ids (l\<lparr> habits := (habits l)(i \<mapsto> h'), receipts := receipts l @ [r],
                     events := events l @ evs,
                     used_ids := insert (fresh_id ctx) (used_ids l) \<rparr>)"
      then have "hid \<notin> used_ids l" by simp
      moreover from this hi(2) have "i \<noteq> hid" by auto
      ultimately show "check_ins_of hid (log @ [(Check_in i n, ctx, Success)]) = 0"
        using inv by (simp add: ledger_inv_def)
    next
      fix hid
      show "receipts_of hid (l\<lparr> habits := (habits l)(i \<mapsto> h'), receipts := receipts l @ [r],
                     events := events l @ evs,
                     used_ids := insert (fresh_id ctx) (used_ids l) \<rparr>) =
            check_ins_of hid (log @ [(Check_in i n, ctx, Success)])"
        using inv rc by (auto simp: ledger_inv_def receipts_of_def)
    next
      fix hid k
      assume k: "habits (l\<lparr> habits := (habits l)(i \<mapsto> h'), receipts := receipts l @ [r],
                     events := events l @ evs,
                     used_ids := insert (fresh_id ctx) (used_ids l) \<rparr>) hid = Some k"
      show "id' k = hid" using k inv ci(1) hi(1) by (auto simp: ledger_inv_def split: if_splits)
      show "hid \<in> used_ids (l\<lparr> habits := (habits l)(i \<mapsto> h'), receipts := receipts l @ [r],
                     events := events l @ evs,
                     used_ids := insert (fresh_id ctx) (used_ids l) \<rparr>)"
        using k inv hi(2) by (auto simp: ledger_inv_def split: if_splits)
      show "current_streak k \<le> longest_streak k"
        using k inv ci(4) by (auto simp: ledger_inv_def split: if_splits)
      show "unat (total_checkins k) = check_ins_of hid (log @ [(Check_in i n, ctx, Success)])"
        using k inv ci(3) hi(3) by (auto simp: ledger_inv_def split: if_splits)
    qed
  qed
qed

lemma history_inv: "history U log l \<Longrightarrow> ledger_inv log l"
proof (induction rule: history.induct)
  case start
  show ?case by (simp add: ledger_inv_def genesis_def check_ins_of_def receipts_of_def)
next
  case (step log l ctx c)
  then show ?case
    by (cases c) (blast intro: inv_create inv_check_in inv_update inv_delete)+
qed

lemma scenario_ledgers:
  "run ascii_check (take 1 scenario) genesis =
     \<lparr> habits = [0 \<mapsto> new_habit], receipts = [], events = [HabitCreated 0 1 []],
       used_ids = {0} \<rparr>"
  "run ascii_check (take 3 scenario) genesis =
     \<lparr> habits = [0 \<mapsto> habit_with 1 1 1 (Some 86400000)],
       receipts = [(1, \<lparr>checkin_id = 2, habit_id = 0, date = 86400000, notes' = None\<rparr>)],
       events = [HabitCreated 0 1 [], CheckInRecorded 0 86400000 1 1],
       used_ids = {2, 0} \<rparr>"
  "run_log ascii_check (take 3 scenario) genesis =
     [(Create_habit [] [] [] 0 1 True, ctx_of 1 0 0, Success),
      (Check_in 0 [], ctx_of 1 0 1, Aborted ARITHMETIC_ERROR),
      (Check_in 0 [], ctx_of 1 86400000 2, Success)]"
  "fresh_along ascii_check (take 3 scenario) genesis"
  by (simp_all add: scenario_def genesis_def ctx_of_def new_habit_def habit_with_def
        ascii_check_def create_habit_unfold check_in_unfold update_streak_def
        update_statistics_def notes_option_def and_then_def add_u64_def sub_u64_def
        get_date_timestamp_def MS_PER_DAY_def GOAL_TYPE_MONTHLY_def Let_def)

section \<open>Check-in on epoch day 0\<close>

lemma day_zero_iff: "get_date_timestamp t = 0 \<longleftrightarrow> t < MS_PER_DAY"
proof
  assume "get_date_timestamp t = 0"
  then have "t = t mod MS_PER_DAY" by (simp add: get_date_timestamp_def)
  moreover have "t mod MS_PER_DAY < MS_PER_DAY"
    by (rule word_mod_less_divisor) (simp add: MS_PER_DAY_def)
  ultimately show "t < MS_PER_DAY" by simp
next
  assume "t < MS_PER_DAY"
  then show "get_date_timestamp t = 0" by (simp add: get_date_timestamp_def mod_word_less)
qed

text \<open>
  Claim C1, on the code. The scenario of the specification checks in first at timestamp 0.
  There \<open>today\<close> is 0 and \<open>today - MS_PER_DAY\<close> aborts, so the first check-in of the
  scenario does not happen: after the check-ins at 0, 86400000 and 172800000 the habit has
  a streak of 2, a longest streak of 2 and 2 check-ins (the scenario says 3, 3 and 3), and
  after the check-in at 432000000 a streak of 1, a longest streak of 2 and 3 check-ins
  (the scenario says 1, 3 and 4), with one \<open>StreakBroken\<close> event whose previous streak is 2
  (the scenario says 3).
\<close>

theorem scenario_on_the_code:
  "check_in ascii_check new_habit [] (ctx_of 1 0 1) = Inl ARITHMETIC_ERROR \<and>
   habits (run ascii_check (take 4 scenario) genesis) 0 =
     Some (habit_with 2 2 2 (Some 172800000)) \<and>
   habits (run ascii_check scenario genesis) 0 = Some (habit_with 3 1 2 (Some 432000000)) \<and>
   filter is_streak_broken (events (run ascii_check scenario genesis)) = [StreakBroken 0 2]"
  by (simp add: scenario_def genesis_def ctx_of_def new_habit_def habit_with_def ascii_check_def
        create_habit_unfold check_in_unfold update_streak_def update_statistics_def
        notes_option_def and_then_def add_u64_def sub_u64_def get_date_timestamp_def
        MS_PER_DAY_def GOAL_TYPE_MONTHLY_def Let_def)

text \<open>
  Claim C2. When the day id of the transaction's timestamp is 0 (the timestamp is below
  \<open>MS_PER_DAY\<close>), \<open>check_in\<close> never succeeds: where the already-checked-in assertion
  does not fire (the last check-in date is absent or is not day 0), the subtraction
  \<open>today - MS_PER_DAY\<close> underflows and the call aborts with an arithmetic error, also on
  the first check-in ever; where the assertion fires, the call aborts with
  \<open>E_ALREADY_CHECKED_IN\<close>.
\<close>

theorem check_in_epoch_day_zero:
  assumes "get_date_timestamp (epoch_timestamp_ms ctx) = 0"
  shows "epoch_timestamp_ms ctx < MS_PER_DAY \<and>
         check_in check_utf8 habit notes_bytes ctx =
           (if last_checkin_date habit = Some 0 then Inl E_ALREADY_CHECKED_IN
            else Inl ARITHMETIC_ERROR)"
proof -
  have "sub_u64 0 MS_PER_DAY = Inl ARITHMETIC_ERROR"
    by (simp add: sub_u64_def MS_PER_DAY_def)
  then have "check_in check_utf8 habit notes_bytes ctx =
           (if last_checkin_date habit = Some 0 then Inl E_ALREADY_CHECKED_IN
            else Inl ARITHMETIC_ERROR)"
    using assms by (cases "last_checkin_date habit") (auto simp: check_in_unfold and_then_def)
  then show ?thesis using assms day_zero_iff by blast
qed

theorem check_in_epoch_day_zero_witness:
  "get_date_timestamp (epoch_timestamp_ms (ctx_of 1 5000 1)) = 0 \<and>
   epoch_timestamp_ms (ctx_of 1 5000 1) < MS_PER_DAY \<and>
   check_in ascii_check new_habit [] (ctx_of 1 5000 1) = Inl ARITHMETIC_ERROR"
proof -
  have d: "get_date_timestamp (epoch_timestamp_ms (ctx_of 1 5000 1)) = 0"
    by (simp add: get_date_timestamp_def ctx_of_def MS_PER_DAY_def)
  show ?thesis
    using d check_in_epoch_day_zero [OF d, of ascii_check new_habit "[]"]
    by (simp add: new_habit_def)
qed

section \<open>Owner gating and goal type validation of updates\<close>

text \<open>
  Claim C7. A caller who is not the owner cannot update or delete: both entry functions
  abort with \<open>E_NOT_OWNER\<close>, and the transaction leaves the ledger as it was (the habit
  is still stored with every field as before, and no event was added).
\<close>

theorem non_owner_is_rejected:
  assumes "sender ctx \<noteq> owner habit"
  shows "update_habit habit nm ds em gt gc pub ctx = Inl E_NOT_OWNER \<and>
         delete_habit habit ctx = Inl E_NOT_OWNER \<and>
         (habits l hid = Some habit \<longrightarrow>
            execute check_utf8 (Update_habit hid nm ds em gt gc pub) ctx l
              = (Aborted E_NOT_OWNER, l) \<and>
            execute check_utf8 (Delete_habit hid) ctx l = (Aborted E_NOT_OWNER, l))"
proof -
  have u: "update_habit habit nm ds em gt gc pub ctx = Inl E_NOT_OWNER"
    using assms by (auto simp: update_habit_unfold)
  have d: "delete_habit habit ctx = Inl E_NOT_OWNER"
    using assms by (auto simp: delete_habit_def)
  show ?thesis by (simp add: u d)
qed

theorem non_owner_is_rejected_witness:
  "sender (ctx_of 2 86400000 1) \<noteq> owner new_habit \<and>
   update_habit new_habit (Some [104, 105]) None None (Some 1) None None (ctx_of 2 86400000 1)
     = Inl E_NOT_OWNER \<and>
   delete_habit new_habit (ctx_of 2 86400000 1) = Inl E_NOT_OWNER \<and>
   habits (run ascii_check (take 1 scenario) genesis) 0 = Some new_habit \<and>
   execute ascii_check (Update_habit 0 (Some [104, 105]) None None (Some 1) None None)
       (ctx_of 2 86400000 1) (run ascii_check (take 1 scenario) genesis)
     = (Aborted E_NOT_OWNER, run ascii_check (take 1 scenario) genesis) \<and>
   execute ascii_check (Delete_habit 0) (ctx_of 2 86400000 1)
       (run ascii_check (take 1 scenario) genesis)
     = (Aborted E_NOT_OWNER, run ascii_check (take 1 scenario) genesis)"
proof -
  have s: "sender (ctx_of 2 86400000 1) \<noteq> owner new_habit"
    by (simp add: ctx_of_def new_habit_def)
  have h: "habits (run ascii_check (take 1 scenario) genesis) 0 = Some new_habit"
    by (simp add: scenario_def genesis_def ctx_of_def new_habit_def ascii_check_def
          create_habit_unfold GOAL_TYPE_MONTHLY_def)
  show ?thesis
    using s h
      non_owner_is_rejected [OF s, of "Some [104, 105]" None None "Some 1" None None
        "run ascii_check (take 1 scenario) genesis" 0 ascii_check]
    by simp
qed

text \<open>
  Claim C8. An update by the owner that supplies a goal type above 2 aborts with
  \<open>E_INVALID_GOAL_TYPE\<close>. The writes to name, description and emoji that ran before the
  assertion are discarded with the abort: the transaction leaves the ledger as it was, the
  habit with every field as before and no \<open>HabitUpdated\<close> event added.
\<close>

theorem invalid_goal_type_update_has_no_effect:
  assumes "sender ctx = owner habit" and "2 < gt"
  shows "update_habit habit nm ds em (Some gt) gc pub ctx = Inl E_INVALID_GOAL_TYPE \<and>
         (habits l hid = Some habit \<longrightarrow>
            execute check_utf8 (Update_habit hid nm ds em (Some gt) gc pub) ctx l
              = (Aborted E_INVALID_GOAL_TYPE, l))"
proof -
  have "\<not> gt \<le> GOAL_TYPE_MONTHLY"
    using assms(2) by (simp add: GOAL_TYPE_MONTHLY_def not_le)
  then have "update_habit habit nm ds em (Some gt) gc pub ctx = Inl E_INVALID_GOAL_TYPE"
    using assms(1) by (simp add: update_habit_unfold)
  then show ?thesis by simp
qed

theorem invalid_goal_type_update_has_no_effect_witness:
  "sender (ctx_of 1 86400000 1) = owner new_habit \<and> (2 :: u8) < 3 \<and>
   update_habit new_habit (Some [104, 105]) (Some [104]) (Some [105]) (Some 3) (Some 5)
       (Some False) (ctx_of 1 86400000 1)
     = Inl E_INVALID_GOAL_TYPE \<and>
   habits (run ascii_check (take 1 scenario) genesis) 0 = Some new_habit \<and>
   execute ascii_check
       (Update_habit 0 (Some [104, 105]) (Some [104]) (Some [105]) (Some 3) (Some 5)
          (Some False))
       (ctx_of 1 86400000 1) (run ascii_check (take 1 scenario) genesis)
     = (Aborted E_INVALID_GOAL_TYPE, run ascii_check (take 1 scenario) genesis)"
proof -
  have s: "sender (ctx_of 1 86400000 1) = owner new_habit"
    by (simp add: ctx_of_def new_habit_def)
  have g: "(2 :: u8) < 3" by simp
  have h: "habits (run ascii_check (take 1 scenario) genesis) 0 = Some new_habit"
    by (simp add: scenario_def genesis_def ctx_of_def new_habit_def ascii_check_def
          create_habit_unfold GOAL_TYPE_MONTHLY_def)
  show ?thesis
    using s g h
      invalid_goal_type_update_has_no_effect [OF s g, of "Some [104, 105]" "Some [104]"
        "Some [105]" "Some 5" "Some False" "run ascii_check (take 1 scenario) genesis" 0
        ascii_check]
    by simp
qed

section \<open>Properties of the view functions\<close>

lemma mul_u64_Inr: "unat a * unat b < 2 ^ 64 \<Longrightarrow> mul_u64 a b = Inr (a * b)"
  by (simp add: mul_u64_def)

lemma mul_u64_Inl: "\<not> unat a * unat b < 2 ^ 64 \<Longrightarrow> mul_u64 a b = Inl ARITHMETIC_ERROR"
  by (simp add: mul_u64_def)

lemma unat_mul_u64: "unat a * unat b < 2 ^ 64 \<Longrightarrow> unat (a * b :: u64) = unat a * unat b"
  by (simp add: unat_word_ariths)

lemma cap_100: "(if rate > 100 then 100 else rate) = (word_of_nat (min 100 (unat rate)) :: u64)"
proof (cases "rate > 100")
  case True
  then have "100 < unat rate" by (simp add: word_less_nat_alt)
  then show ?thesis using True by (simp add: min_def)
next
  case False
  then have "unat rate \<le> 100" by (simp add: word_less_nat_alt not_less)
  then show ?thesis using False by (simp add: min_def)
qed

text \<open>
  Claim C9, as the code has it. \<open>get_completion_rate\<close> returns 0 when the total, the
  period or the goal count is 0; otherwise it aborts with an arithmetic error when
  \<open>period_days * goal_count\<close> or \<open>total_checkins * 100\<close> does not fit in 64 bits, and
  returns \<open>min(100, floor(total_checkins * 100 / (period_days * goal_count)))\<close> when both
  fit. Every value it returns is at most 100.
\<close>

theorem get_completion_rate_value:
  "get_completion_rate habit period_days =
     (if total_checkins habit = 0 \<or> period_days = 0 \<or> goal_count habit = 0 then Inr 0
      else if 2 ^ 64 \<le> unat period_days * unat (goal_count habit)
            \<or> 2 ^ 64 \<le> unat (total_checkins habit) * 100
      then Inl ARITHMETIC_ERROR
      else Inr (word_of_nat (min 100 (unat (total_checkins habit) * 100
                                        div (unat period_days * unat (goal_count habit)))))) \<and>
   (get_completion_rate habit period_days = Inr rate \<longrightarrow> rate \<le> 100)"
proof -
  let ?t = "total_checkins habit" and ?g = "goal_count habit" and ?p = period_days
  have cap: "\<And>r :: u64. (if r > 100 then 100 else r) \<le> 100"
    by (simp add: not_less)
  have bound: "get_completion_rate habit period_days = Inr rate \<longrightarrow> rate \<le> 100"
    using cap
    by (auto simp: get_completion_rate_def and_then_def div_u64_def
          split: sum.splits if_splits)
  have val: "get_completion_rate habit period_days =
     (if ?t = 0 \<or> ?p = 0 \<or> ?g = 0 then Inr 0
      else if 2 ^ 64 \<le> unat ?p * unat ?g \<or> 2 ^ 64 \<le> unat ?t * 100
      then Inl ARITHMETIC_ERROR
      else Inr (word_of_nat (min 100 (unat ?t * 100 div (unat ?p * unat ?g)))))"
  proof (cases "?t = 0 \<or> ?p = 0")
    case True
    then show ?thesis by (auto simp: get_completion_rate_def)
  next
    case False
    note nz = False
    show ?thesis
    proof (cases "?g = 0")
      case True
      then show ?thesis using nz
        by (simp add: get_completion_rate_def mul_u64_def and_then_def)
    next
      case False
      note gnz = False
      have pos: "0 < unat ?p * unat ?g"
        using nz gnz by (simp add: unat_gt_0)
      show ?thesis
      proof (cases "unat ?p * unat ?g < 2 ^ 64")
        case False
        then show ?thesis using nz gnz
          by (simp add: get_completion_rate_def mul_u64_Inl and_then_def not_less)
      next
        case True
        note e = True
        have ue: "unat (?p * ?g) = unat ?p * unat ?g" by (rule unat_mul_u64 [OF e])
        have enz: "?p * ?g \<noteq> 0" using ue pos by (metis less_numeral_extra(3) unat_0)
        show ?thesis
        proof (cases "unat ?t * 100 < 2 ^ 64")
          case False
          then show ?thesis using nz gnz e enz
            by (simp add: get_completion_rate_def mul_u64_Inr mul_u64_Inl and_then_def not_less)
        next
          case True
          have "unat ?t * unat (100 :: u64) < 2 ^ 64" using True by simp
          note t = this
          have ut: "unat (?t * 100) = unat ?t * 100"
            using unat_mul_u64 [OF t] by simp
          have r: "unat ((?t * 100) div (?p * ?g)) = unat ?t * 100 div (unat ?p * unat ?g)"
            by (simp add: unat_div ut ue)
          have "get_completion_rate habit period_days =
              Inr (if (?t * 100) div (?p * ?g) > 100 then 100 else (?t * 100) div (?p * ?g))"
            using nz e enz t
            by (simp add: get_completion_rate_def mul_u64_Inr and_then_def div_u64_def)
          also have "\<dots> = Inr (word_of_nat (min 100 (unat ?t * 100 div (unat ?p * unat ?g))))"
            by (simp only: cap_100 r)
          finally show ?thesis using nz gnz e True by (simp add: not_le)
        qed
      qed
    qed
  qed
  show ?thesis using val bound by blast
qed

theorem get_completion_rate_value_witness:
  "get_completion_rate (habit_with 3 1 2 (Some 432000000)) 7 = Inr 42 \<and> (42 :: u64) \<le> 100 \<and>
   get_completion_rate (habit_with 3 1 2 (Some 432000000)) 2 = Inr 100 \<and>
   get_completion_rate (habit_with 3 1 2 (Some 432000000)) 0 = Inr 0"
  using get_completion_rate_value [of "habit_with 3 1 2 (Some 432000000)" 7 42]
    get_completion_rate_value [of "habit_with 3 1 2 (Some 432000000)" 2 100]
    get_completion_rate_value [of "habit_with 3 1 2 (Some 432000000)" 0 0]
  by (simp add: habit_with_def new_habit_def)

text \<open>
  Claim C9 as stated fails where a product leaves the 64-bit range: with 1 check-in, a goal
  count of \<open>2^32\<close> and a period of \<open>2^32\<close> days the stated value is
  \<open>min(100, floor(100 / 2^64)) = 0\<close>, and with \<open>2^63\<close> check-ins, a goal count of 1 and a
  period of 1 day it is 100; the function aborts on both.
\<close>

theorem get_completion_rate_overflow:
  "get_completion_rate (new_habit\<lparr>goal_count := 4294967296, total_checkins := 1\<rparr>) 4294967296
     = Inl ARITHMETIC_ERROR \<and>
   get_completion_rate (new_habit\<lparr>total_checkins := 9223372036854775808\<rparr>) 1
     = Inl ARITHMETIC_ERROR"
  by (simp add: get_completion_rate_def new_habit_def mul_u64_def and_then_def)

text \<open>
  Claim C10, as the code has it. \<open>get_habit_info\<close> returns eleven of the thirteen fields
  of the habit, each as stored: every field except \<open>id\<close> and \<open>last_checkin_date\<close>, on
  which the tuple does not depend. It is a value of the habit alone, so nothing is mutated
  and nothing can fail.
\<close>

theorem get_habit_info_fields:
  "get_habit_info habit =
     (owner habit, name habit, description habit, emoji habit, created_at habit,
      goal_type habit, goal_count habit, total_checkins habit, current_streak habit,
      longest_streak habit, is_public habit) \<and>
   get_habit_info (habit\<lparr>id' := other_id, last_checkin_date := other_date\<rparr>)
     = get_habit_info habit \<and>
   (get_habit_info habit = get_habit_info other_habit \<longleftrightarrow>
      other_habit\<lparr>id' := id' habit, last_checkin_date := last_checkin_date habit\<rparr> = habit)"
proof -
  have "other_habit\<lparr>id' := id' habit, last_checkin_date := last_checkin_date habit\<rparr> = habit \<longleftrightarrow>
        get_habit_info habit = get_habit_info other_habit"
    by (cases habit; cases other_habit) (auto simp: get_habit_info_def)
  then show ?thesis by (simp add: get_habit_info_def)
qed

theorem get_habit_info_fields_witness:
  "get_habit_info (habit_with 3 1 2 (Some 432000000)) = (1, [], [], [], 0, 0, 1, 3, 1, 2, True) \<and>
   get_habit_info ((habit_with 3 1 2 (Some 432000000))\<lparr>id' := 9, last_checkin_date := None\<rparr>)
     = get_habit_info (habit_with 3 1 2 (Some 432000000))"
  using get_habit_info_fields [where habit = "habit_with 3 1 2 (Some 432000000)"
      and other_id = 9 and other_date = None and other_habit = new_habit]
  by (simp add: habit_with_def new_habit_def)

text \<open>
  Claim C10 as stated fails on the \<open>id\<close> field: two habits that differ in their id, and in
  nothing else, have the same tuple.
\<close>

theorem get_habit_info_without_id:
  "id' new_habit \<noteq> id' (new_habit\<lparr>id' := 7\<rparr>) \<and>
   get_habit_info new_habit = get_habit_info (new_habit\<lparr>id' := 7\<rparr>)"
  by (simp add: get_habit_info_def new_habit_def)

section \<open>The streak algorithm\<close>

lemma sub_u64_Inr: "sub_u64 a b = Inr c \<Longrightarrow> b \<le> a \<and> unat c = unat a - unat b"
  by (auto simp: sub_u64_def unat_sub split: if_splits)

lemma update_streak_broken:
  assumes "last_checkin_date h = Some last_date" and "last_date < y"
  shows "update_streak h y =
           Inr (h\<lparr>longest_streak := max (longest_streak h) (current_streak h),
                   current_streak := 1\<rparr>,
                [StreakBroken (id' h) (current_streak h)])"
proof -
  have ne: "last_date \<noteq> y" using assms(2) by simp
  show ?thesis
  proof (cases "current_streak h > longest_streak h")
    case True
    then have "max (longest_streak h) (current_streak h) = current_streak h"
      by (simp add: max_absorb2 less_imp_le)
    then show ?thesis using assms ne True by (simp add: update_streak_def)
  next
    case False
    then have "max (longest_streak h) (current_streak h) = longest_streak h"
      by (simp add: max_absorb1 not_less)
    then show ?thesis using assms ne False by (simp add: update_streak_def)
  qed
qed

text \<open>
  Claim C4. When a habit with a streak of \<open>n \<ge> 1\<close> is checked in successfully on a day id
  strictly greater than \<open>last_checkin_date + MS_PER_DAY\<close> (the sum taken in unbounded
  arithmetic), the current streak becomes 1, the longest streak becomes
  \<open>max(longest_streak, n)\<close>, and the events of the call are one \<open>StreakBroken\<close> with
  previous streak \<open>n\<close>, followed by the \<open>CheckInRecorded\<close> event.
\<close>

theorem streak_break:
  assumes "last_checkin_date habit = Some last_date"
    and "current_streak habit = n" and "1 \<le> n"
    and "unat last_date + unat MS_PER_DAY < unat (get_date_timestamp (epoch_timestamp_ms ctx))"
    and "check_in check_utf8 habit notes_bytes ctx = Inr (habit', receipt, evs)"
  shows "current_streak habit' = 1 \<and>
         longest_streak habit' = max (longest_streak habit) n \<and>
         filter is_streak_broken evs = [StreakBroken (id' habit) n] \<and>
         evs = [StreakBroken (id' habit) n,
                CheckInRecorded (id' habit) (get_date_timestamp (epoch_timestamp_ms ctx)) 1
                  (total_checkins habit')]"
proof -
  let ?today = "get_date_timestamp (epoch_timestamp_ms ctx)"
  from check_in_InrD [OF assms(5)] obtain y h1 evs1 where
    y: "sub_u64 ?today MS_PER_DAY = Inr y"
    and h1: "update_streak habit y = Inr (h1, evs1)"
    and h': "update_statistics h1 ?today = Inr habit'"
    and evs: "evs = evs1 @ [CheckInRecorded (id' habit') ?today (current_streak habit')
                              (total_checkins habit')]"
    by blast
  have "unat last_date < unat y"
    using sub_u64_Inr [OF y] assms(4) by simp
  then have lt: "last_date < y" by (simp add: word_less_nat_alt)
  have h1_eq: "h1 = habit\<lparr>longest_streak := max (longest_streak habit) n, current_streak := 1\<rparr>"
    and evs1: "evs1 = [StreakBroken (id' habit) n]"
    using h1 update_streak_broken [OF assms(1) lt] assms(2) by simp_all
  have "1 \<le> max (longest_streak habit) n"
    using assms(3) by (simp add: le_max_iff_disj)
  moreover have "current_streak h1 = 1"
    and "longest_streak h1 = max (longest_streak habit) n"
    by (simp_all add: h1_eq)
  ultimately have no: "\<not> current_streak h1 > longest_streak h1"
    by (simp only: not_less)
  note s = update_statistics_Inr [OF h']
  have ls: "longest_streak habit' = longest_streak h1"
    using h' no by (auto simp: update_statistics_def and_then_Inr Let_def)
  have c: "current_streak habit' = 1" using s(6) by (simp add: h1_eq)
  have l: "longest_streak habit' = max (longest_streak habit) n" using ls by (simp add: h1_eq)
  have i: "id' habit' = id' habit" using s(1) by (simp add: h1_eq)
  show ?thesis using c l i evs evs1 by simp
qed

theorem streak_break_witness:
  "check_in ascii_check (habit_with 3 3 3 (Some 259200000)) [] (ctx_of 1 518400000 5)
     = Inr (habit_with 4 1 3 (Some 518400000),
            (1, \<lparr>checkin_id = 5, habit_id = 0, date = 518400000, notes' = None\<rparr>),
            [StreakBroken 0 3, CheckInRecorded 0 518400000 1 4]) \<and>
   current_streak (habit_with 4 1 3 (Some 518400000)) = 1 \<and>
   longest_streak (habit_with 4 1 3 (Some 518400000)) = 3"
proof -
  have t: "get_date_timestamp (epoch_timestamp_ms (ctx_of 1 518400000 5)) = 518400000"
    by (simp add: get_date_timestamp_def ctx_of_def MS_PER_DAY_def)
  have a1: "last_checkin_date (habit_with 3 3 3 (Some 259200000)) = Some 259200000"
    and a2: "current_streak (habit_with 3 3 3 (Some 259200000)) = 3"
    by (simp_all add: habit_with_def)
  have a3: "(1 :: u64) \<le> 3" by simp
  have a4: "unat (259200000 :: u64) + unat MS_PER_DAY
              < unat (get_date_timestamp (epoch_timestamp_ms (ctx_of 1 518400000 5)))"
    by (simp add: t MS_PER_DAY_def)
  have a5: "check_in ascii_check (habit_with 3 3 3 (Some 259200000)) [] (ctx_of 1 518400000 5)
     = Inr (habit_with 4 1 3 (Some 518400000),
            (1, \<lparr>checkin_id = 5, habit_id = 0, date = 518400000, notes' = None\<rparr>),
            [StreakBroken 0 3, CheckInRecorded 0 518400000 1 4])"
    by (simp add: check_in_unfold get_date_timestamp_def habit_with_def new_habit_def ctx_of_def update_streak_def
          update_statistics_def notes_option_def and_then_def add_u64_def sub_u64_def
          MS_PER_DAY_def Let_def)
  show ?thesis
    using a5 streak_break [OF a1 a2 a3 a4 a5] by (simp add: habit_with_def)
qed

section \<open>At most one check-in per day\<close>

lemma sub_u64_abort: "sub_u64 a b = Inl e \<Longrightarrow> e = ARITHMETIC_ERROR"
  by (simp add: sub_u64_def split: if_splits)

lemma add_u64_abort: "add_u64 a b = Inl e \<Longrightarrow> e = ARITHMETIC_ERROR"
  by (simp add: add_u64_def split: if_splits)

lemma update_streak_abort:
  "update_streak h y = Inl e \<Longrightarrow> e = ARITHMETIC_ERROR \<or> e = E_INVALID_DATE"
  by (auto simp: update_streak_def and_then_Inl Let_def dest: add_u64_abort
        split: option.splits if_splits)

lemma update_statistics_abort: "update_statistics h today = Inl e \<Longrightarrow> e = ARITHMETIC_ERROR"
  by (auto simp: update_statistics_def and_then_Inl Let_def dest: add_u64_abort)

lemma notes_option_abort: "notes_option U n = Inl e \<Longrightarrow> e = E_INVALID_UTF8"
  by (auto simp: notes_option_def and_then_Inl utf8_def split: if_splits)

lemma check_in_already_iff:
  "check_in U h n ctx = Inl E_ALREADY_CHECKED_IN \<longleftrightarrow>
     last_checkin_date h = Some (get_date_timestamp (epoch_timestamp_ms ctx))"
proof (cases "last_checkin_date h = Some (get_date_timestamp (epoch_timestamp_ms ctx))")
  case True
  then show ?thesis by (simp add: check_in_unfold)
next
  case False
  then have g: "\<not> (case last_checkin_date h of
            Some last_date \<Rightarrow> \<not> last_date \<noteq> get_date_timestamp (epoch_timestamp_ms ctx)
          | None \<Rightarrow> False)"
    by (cases "last_checkin_date h") simp_all
  have "check_in U h n ctx \<noteq> Inl E_ALREADY_CHECKED_IN"
    unfolding check_in_unfold using g
    by (auto simp: and_then_Inl dest: sub_u64_abort update_streak_abort
          update_statistics_abort notes_option_abort)
  then show ?thesis using False by simp
qed

lemma minus_day_less:
  assumes "MS_PER_DAY \<le> today"
  shows "today - MS_PER_DAY < today"
proof -
  have "unat (today - MS_PER_DAY) = unat today - unat MS_PER_DAY"
    using assms by (simp add: unat_sub)
  moreover have "0 < unat MS_PER_DAY" by (simp add: MS_PER_DAY_def)
  moreover have "unat MS_PER_DAY \<le> unat today" using assms by (simp add: word_le_nat_alt)
  ultimately show ?thesis by (simp add: word_less_nat_alt)
qed

lemma add_u64_one: "unat a + 1 < 2 ^ 64 \<Longrightarrow> add_u64 a 1 = Inr (a + 1)"
  by (simp add: add_u64_def)

lemma update_streak_succeeds:
  assumes "\<forall>d. last_checkin_date h = Some d \<longrightarrow> d \<le> y"
    and "unat (current_streak h) + 1 < 2 ^ 64"
  shows "\<exists>h1 evs1. update_streak h y = Inr (h1, evs1) \<and> total_checkins h1 = total_checkins h"
proof (cases "last_checkin_date h")
  case None
  then show ?thesis by (simp add: update_streak_def)
next
  case (Some d)
  then have le: "d \<le> y" using assms(1) by simp
  show ?thesis
  proof (cases "d = y")
    case True
    then show ?thesis
      using Some add_u64_one [OF assms(2)] by (simp add: update_streak_def and_then_def)
  next
    case False
    then have "d < y" using le by simp
    then show ?thesis
      using Some update_streak_broken [OF Some] by simp
  qed
qed

lemma update_statistics_succeeds:
  assumes "unat (total_checkins h) + 1 < 2 ^ 64"
  shows "\<exists>h2. update_statistics h today = Inr h2"
  using add_u64_one [OF assms] by (simp add: update_statistics_def and_then_def Let_def)

lemma notes_option_succeeds:
  assumes "n = [] \<or> U n"
  shows "\<exists>no. notes_option U n = Inr no"
  using assms by (auto simp: notes_option_def utf8_def and_then_def)

lemma check_in_succeeds:
  assumes day: "MS_PER_DAY \<le> get_date_timestamp (epoch_timestamp_ms ctx)"
    and last: "\<forall>d. last_checkin_date h = Some d
                 \<longrightarrow> d \<le> get_date_timestamp (epoch_timestamp_ms ctx) - MS_PER_DAY"
    and streak: "unat (current_streak h) + 1 < 2 ^ 64"
    and total: "unat (total_checkins h) + 1 < 2 ^ 64"
    and valid: "n = [] \<or> U n"
  shows "\<exists>h' r evs. check_in U h n ctx = Inr (h', r, evs)"
proof -
  let ?today = "get_date_timestamp (epoch_timestamp_ms ctx)"
  have lt: "?today - MS_PER_DAY < ?today" by (rule minus_day_less [OF day])
  have g: "\<not> (case last_checkin_date h of
            Some last_date \<Rightarrow> \<not> last_date \<noteq> ?today | None \<Rightarrow> False)"
  proof (cases "last_checkin_date h")
    case None
    then show ?thesis by simp
  next
    case (Some d)
    then have "d \<le> ?today - MS_PER_DAY" using last by simp
    then have "d < ?today" using lt by simp
    then show ?thesis using Some by simp
  qed
  have y: "sub_u64 ?today MS_PER_DAY = Inr (?today - MS_PER_DAY)"
    using day by (simp add: sub_u64_def)
  from update_streak_succeeds [OF last streak] obtain h1 evs1 where
    h1: "update_streak h (?today - MS_PER_DAY) = Inr (h1, evs1)"
    and t1: "total_checkins h1 = total_checkins h"
    by blast
  from update_statistics_succeeds [of h1 ?today] total t1 obtain h2 where
    h2: "update_statistics h1 ?today = Inr h2"
    by auto
  from notes_option_succeeds [where U = U and n = n, OF valid] obtain no where
    no: "notes_option U n = Inr no"
    by blast
  show ?thesis
    unfolding check_in_unfold using g y h1 h2 no by (simp add: and_then_def)
qed

text \<open>
  Claim C5, as the code has it. Take a habit and a timestamp whose day id is at least
  \<open>MS_PER_DAY\<close>, with the last check-in date absent or at most the day before, both
  counters below the largest 64-bit value, and notes that are empty or valid UTF-8. Then
  the check-in succeeds, and a second check-in whose timestamp maps to the same day id
  aborts with \<open>E_ALREADY_CHECKED_IN\<close>, whatever its notes, its sender and its timestamp
  within the day, and leaves the ledger (so the habit) as the first one left it.
  \<open>check_in\<close> aborts with \<open>E_ALREADY_CHECKED_IN\<close> exactly when \<open>can_check_in_today\<close>
  is false, that is when the last check-in date is present and equal to the day id of the
  timestamp.
\<close>

theorem check_in_twice_same_day:
  assumes "habits l hid = Some habit"
    and "MS_PER_DAY \<le> get_date_timestamp (epoch_timestamp_ms ctx_a)"
    and "\<forall>d. last_checkin_date habit = Some d
           \<longrightarrow> d \<le> get_date_timestamp (epoch_timestamp_ms ctx_a) - MS_PER_DAY"
    and "unat (current_streak habit) + 1 < 2 ^ 64"
    and "unat (total_checkins habit) + 1 < 2 ^ 64"
    and "notes_a = [] \<or> utf8_check notes_a"
    and "get_date_timestamp (epoch_timestamp_ms ctx_b)
           = get_date_timestamp (epoch_timestamp_ms ctx_a)"
  shows "fst (execute utf8_check (Check_in hid notes_a) ctx_a l) = Success \<and>
         execute utf8_check (Check_in hid notes_b) ctx_b
             (snd (execute utf8_check (Check_in hid notes_a) ctx_a l))
           = (Aborted E_ALREADY_CHECKED_IN,
              snd (execute utf8_check (Check_in hid notes_a) ctx_a l)) \<and>
         (check_in utf8_check h notes_bytes ctx = Inl E_ALREADY_CHECKED_IN
            \<longleftrightarrow> \<not> can_check_in_today h ctx) \<and>
         (\<not> can_check_in_today h ctx
            \<longleftrightarrow> last_checkin_date h = Some (get_date_timestamp (epoch_timestamp_ms ctx)))"
proof -
  from check_in_succeeds [where U = utf8_check and n = notes_a, OF assms(2-6)] obtain habit' receipt evs where
    ok: "check_in utf8_check habit notes_a ctx_a = Inr (habit', receipt, evs)"
    by blast
  have ex: "execute utf8_check (Check_in hid notes_a) ctx_a l =
      (Success, l\<lparr> habits := (habits l)(hid \<mapsto> habit'), receipts := receipts l @ [receipt],
                   events := events l @ evs,
                   used_ids := insert (fresh_id ctx_a) (used_ids l) \<rparr>)"
    using assms(1) ok by simp
  have "last_checkin_date habit' = Some (get_date_timestamp (epoch_timestamp_ms ctx_b))"
    using check_in_Inr(7) [OF ok] assms(7) by simp
  then have again: "check_in utf8_check habit' notes_b ctx_b = Inl E_ALREADY_CHECKED_IN"
    by (simp add: check_in_already_iff)
  have first: "fst (execute utf8_check (Check_in hid notes_a) ctx_a l) = Success"
    unfolding ex by simp
  have second: "execute utf8_check (Check_in hid notes_b) ctx_b
             (snd (execute utf8_check (Check_in hid notes_a) ctx_a l))
           = (Aborted E_ALREADY_CHECKED_IN,
              snd (execute utf8_check (Check_in hid notes_a) ctx_a l))"
    unfolding ex using again by simp
  have can: "\<not> can_check_in_today h ctx
            \<longleftrightarrow> last_checkin_date h = Some (get_date_timestamp (epoch_timestamp_ms ctx))"
    by (cases "last_checkin_date h") (simp_all add: can_check_in_today_def)
  show ?thesis using first second can by (simp add: check_in_already_iff)
qed

theorem check_in_twice_same_day_witness:
  "habits (run ascii_check (take 3 scenario) genesis) 0
     = Some (habit_with 1 1 1 (Some 86400000)) \<and>
   MS_PER_DAY \<le> get_date_timestamp (epoch_timestamp_ms (ctx_of 1 172800000 3)) \<and>
   (86400000 :: u64) \<le> get_date_timestamp (epoch_timestamp_ms (ctx_of 1 172800000 3)) - MS_PER_DAY \<and>
   get_date_timestamp (epoch_timestamp_ms (ctx_of 2 172800500 4))
     = get_date_timestamp (epoch_timestamp_ms (ctx_of 1 172800000 3)) \<and>
   execute ascii_check (Check_in 0 [104, 105]) (ctx_of 1 172800000 3)
       (run ascii_check (take 3 scenario) genesis)
     = (Success,
        \<lparr> habits = [0 \<mapsto> habit_with 2 2 2 (Some 172800000)],
          receipts = [(1, \<lparr>checkin_id = 2, habit_id = 0, date = 86400000, notes' = None\<rparr>),
                      (1, \<lparr>checkin_id = 3, habit_id = 0, date = 172800000,
                            notes' = Some [104, 105]\<rparr>)],
          events = [HabitCreated 0 1 [], CheckInRecorded 0 86400000 1 1,
                    CheckInRecorded 0 172800000 2 2],
          used_ids = {3, 2, 0} \<rparr>) \<and>
   execute ascii_check (Check_in 0 [200]) (ctx_of 2 172800500 4)
       (snd (execute ascii_check (Check_in 0 [104, 105]) (ctx_of 1 172800000 3)
               (run ascii_check (take 3 scenario) genesis)))
     = (Aborted E_ALREADY_CHECKED_IN,
        snd (execute ascii_check (Check_in 0 [104, 105]) (ctx_of 1 172800000 3)
               (run ascii_check (take 3 scenario) genesis)))"
proof -
  let ?l = "run ascii_check (take 3 scenario) genesis"
  let ?h = "habit_with 1 1 1 (Some 86400000)"
  have t: "get_date_timestamp (epoch_timestamp_ms (ctx_of 1 172800000 3)) = 172800000"
    by (simp add: get_date_timestamp_def ctx_of_def MS_PER_DAY_def)
  have h: "habits ?l 0 = Some ?h"
    by (simp add: scenario_ledgers(2))
  have day: "MS_PER_DAY \<le> get_date_timestamp (epoch_timestamp_ms (ctx_of 1 172800000 3))"
    by (simp add: t MS_PER_DAY_def)
  have le: "(86400000 :: u64)
              \<le> get_date_timestamp (epoch_timestamp_ms (ctx_of 1 172800000 3)) - MS_PER_DAY"
    by (simp add: t MS_PER_DAY_def)
  have last: "\<forall>d. last_checkin_date ?h = Some d
           \<longrightarrow> d \<le> get_date_timestamp (epoch_timestamp_ms (ctx_of 1 172800000 3)) - MS_PER_DAY"
    using le by (simp add: habit_with_def)
  have streak: "unat (current_streak ?h) + 1 < 2 ^ 64"
    and total: "unat (total_checkins ?h) + 1 < 2 ^ 64"
    by (simp_all add: habit_with_def)
  have valid: "[104, 105] = [] \<or> ascii_check [104, 105]"
    by (simp add: ascii_check_def)
  have same: "get_date_timestamp (epoch_timestamp_ms (ctx_of 2 172800500 4))
     = get_date_timestamp (epoch_timestamp_ms (ctx_of 1 172800000 3))"
    by (simp add: get_date_timestamp_def ctx_of_def MS_PER_DAY_def)
  have ex: "execute ascii_check (Check_in 0 [104, 105]) (ctx_of 1 172800000 3) ?l
     = (Success,
        \<lparr> habits = [0 \<mapsto> habit_with 2 2 2 (Some 172800000)],
          receipts = [(1, \<lparr>checkin_id = 2, habit_id = 0, date = 86400000, notes' = None\<rparr>),
                      (1, \<lparr>checkin_id = 3, habit_id = 0, date = 172800000,
                            notes' = Some [104, 105]\<rparr>)],
          events = [HabitCreated 0 1 [], CheckInRecorded 0 86400000 1 1,
                    CheckInRecorded 0 172800000 2 2],
          used_ids = {3, 2, 0} \<rparr>)"
    by (simp add: scenario_ledgers(2) ctx_of_def new_habit_def habit_with_def
        ascii_check_def check_in_unfold update_streak_def utf8_def
        update_statistics_def notes_option_def and_then_def add_u64_def sub_u64_def
        get_date_timestamp_def MS_PER_DAY_def Let_def)
  show ?thesis
    using h day le same ex
      check_in_twice_same_day [where utf8_check = ascii_check and notes_a = "[104, 105]"
        and notes_b = "[200]", OF h day last streak total valid same]
    by blast
qed

text \<open>
  Claim C5 as stated fails where the first call of the pair does not succeed, and then the
  second call of the same day does not abort with \<open>E_ALREADY_CHECKED_IN\<close> either: on a
  habit whose last check-in date is a later day than the timestamp's both calls abort with
  \<open>E_INVALID_DATE\<close>; on a habit whose total, or whose streak on a consecutive day, is the
  largest 64-bit value both abort with an arithmetic error; with notes that are not valid
  UTF-8 the first call aborts with the abort of \<open>string::utf8\<close>; and on epoch day 0 both
  abort with an arithmetic error.
\<close>

theorem first_check_in_can_abort:
  "get_date_timestamp (epoch_timestamp_ms (ctx_of 1 86400000 5))
     = get_date_timestamp (epoch_timestamp_ms (ctx_of 1 86400500 6)) \<and>
   check_in ascii_check (habit_with 1 1 1 (Some 172800000)) [] (ctx_of 1 86400000 5)
     = Inl E_INVALID_DATE \<and>
   check_in ascii_check (habit_with 1 1 1 (Some 172800000)) [] (ctx_of 1 86400500 6)
     = Inl E_INVALID_DATE \<and>
   check_in ascii_check (habit_with 18446744073709551615 1 1 None) [] (ctx_of 1 86400000 5)
     = Inl ARITHMETIC_ERROR \<and>
   check_in ascii_check (habit_with 18446744073709551615 1 1 None) [] (ctx_of 1 86400500 6)
     = Inl ARITHMETIC_ERROR \<and>
   check_in ascii_check (habit_with 1 18446744073709551615 18446744073709551615 (Some 0)) []
       (ctx_of 1 86400000 5)
     = Inl ARITHMETIC_ERROR \<and>
   check_in ascii_check (habit_with 1 18446744073709551615 18446744073709551615 (Some 0)) []
       (ctx_of 1 86400500 6)
     = Inl ARITHMETIC_ERROR \<and>
   check_in ascii_check new_habit [200] (ctx_of 1 86400000 5) = Inl E_INVALID_UTF8 \<and>
   check_in ascii_check new_habit [] (ctx_of 1 0 5) = Inl ARITHMETIC_ERROR \<and>
   check_in ascii_check new_habit [] (ctx_of 1 500 6) = Inl ARITHMETIC_ERROR"
  by (simp add: check_in_unfold get_date_timestamp_def habit_with_def new_habit_def ctx_of_def
        update_streak_def update_statistics_def notes_option_def utf8_def ascii_check_def
        and_then_def add_u64_def sub_u64_def MS_PER_DAY_def Let_def)

section \<open>Invariants of the reachable ledgers\<close>

lemma history_run:
  "history U log l \<Longrightarrow> fresh_along U txs l \<Longrightarrow> history U (log @ run_log U txs l) (run U txs l)"
proof (induction txs arbitrary: log l)
  case Nil
  then show ?case by simp
next
  case (Cons tx txs)
  obtain c ctx where tx: "tx = (c, ctx)" by (cases tx)
  from Cons.prems have f: "fresh_id ctx \<notin> used_ids l"
    and r: "fresh_along U txs (snd (execute U c ctx l))"
    by (simp_all add: tx)
  have "history U (log @ [(c, ctx, fst (execute U c ctx l))]) (snd (execute U c ctx l))"
    by (rule history.step [OF Cons.prems(1) f])
  from Cons.IH [OF this r] show ?case by (simp add: tx)
qed

lemma execute_streaks:
  assumes pre: "\<forall>i k. habits l i = Some k \<longrightarrow> current_streak k \<le> longest_streak k"
    and post: "habits (snd (execute U c ctx l)) hid = Some h'"
  shows "current_streak h' \<le> longest_streak h'"
proof (cases c)
  case (Create_habit a b c' d e f)
  then show ?thesis using pre post
    by (auto simp: create_habit_unfold split: if_splits)
next
  case (Check_in i n)
  then show ?thesis using pre post
    by (auto split: option.splits sum.splits if_splits dest: check_in_Inr(4))
next
  case (Update_habit i a b c' d e f)
  then show ?thesis using pre post
    by (auto simp: update_habit_unfold split: option.splits if_splits)
next
  case (Delete_habit i)
  then show ?thesis using pre post
    by (auto simp: delete_habit_def split: option.splits if_splits)
qed

text \<open>
  Claim C3. In every reachable ledger every habit has its current streak at most its
  longest streak: \<open>create_habit\<close> sets both to zero, and every transaction (a
  \<open>create_habit\<close>, \<open>check_in\<close>, \<open>update_habit\<close> or \<open>delete_habit\<close>, completed or aborted)
  on a ledger where all habits have the property leaves a ledger where all habits have it.
\<close>

theorem current_streak_le_longest_streak:
  "(create_habit check_utf8 nm ds em gt gc pub ctx0 = Inr (habit0, hid0, evs0) \<longrightarrow>
      current_streak habit0 = 0 \<and> longest_streak habit0 = 0) \<and>
   (history check_utf8 log l \<longrightarrow> habits l hid = Some habit \<longrightarrow>
      current_streak habit \<le> longest_streak habit) \<and>
   ((\<forall>i k. habits l' i = Some k \<longrightarrow> current_streak k \<le> longest_streak k) \<longrightarrow>
      habits (snd (execute check_utf8 c ctx l')) hid' = Some habit' \<longrightarrow>
      current_streak habit' \<le> longest_streak habit')"
proof (intro conjI impI)
  assume "create_habit check_utf8 nm ds em gt gc pub ctx0 = Inr (habit0, hid0, evs0)"
  then show "current_streak habit0 = 0" and "longest_streak habit0 = 0"
    by (auto simp: create_habit_unfold split: if_splits)
next
  assume "history check_utf8 log l" and "habits l hid = Some habit"
  then show "current_streak habit \<le> longest_streak habit"
    using history_inv [of check_utf8 log l] by (simp add: ledger_inv_def)
next
  assume "\<forall>i k. habits l' i = Some k \<longrightarrow> current_streak k \<le> longest_streak k"
    and "habits (snd (execute check_utf8 c ctx l')) hid' = Some habit'"
  then show "current_streak habit' \<le> longest_streak habit'"
    by (rule execute_streaks)
qed

theorem current_streak_le_longest_streak_witness:
  "create_habit ascii_check [] [] [] 0 1 True (ctx_of 1 0 0)
     = Inr (new_habit, 0, [HabitCreated 0 1 []]) \<and>
   current_streak new_habit = 0 \<and> longest_streak new_habit = 0 \<and>
   history ascii_check (run_log ascii_check (take 3 scenario) genesis)
     (run ascii_check (take 3 scenario) genesis) \<and>
   habits (run ascii_check (take 3 scenario) genesis) 0
     = Some (habit_with 1 1 1 (Some 86400000)) \<and>
   current_streak (habit_with 1 1 1 (Some 86400000))
     \<le> longest_streak (habit_with 1 1 1 (Some 86400000)) \<and>
   habits (snd (execute ascii_check (Check_in 0 []) (ctx_of 1 172800000 3)
                  (run ascii_check (take 3 scenario) genesis))) 0
     = Some (habit_with 2 2 2 (Some 172800000)) \<and>
   current_streak (habit_with 2 2 2 (Some 172800000))
     \<le> longest_streak (habit_with 2 2 2 (Some 172800000))"
proof -
  let ?l = "run ascii_check (take 3 scenario) genesis"
  have c: "create_habit ascii_check [] [] [] 0 1 True (ctx_of 1 0 0)
     = Inr (new_habit, 0, [HabitCreated 0 1 []])"
    by (simp add: create_habit_unfold ascii_check_def ctx_of_def new_habit_def
          GOAL_TYPE_MONTHLY_def)
  have hist: "history ascii_check (run_log ascii_check (take 3 scenario) genesis) ?l"
    using history_run [OF history.start scenario_ledgers(4)] by simp
  have h: "habits ?l 0 = Some (habit_with 1 1 1 (Some 86400000))"
    by (simp add: scenario_ledgers(2))
  have pre: "\<forall>i k. habits ?l i = Some k \<longrightarrow> current_streak k \<le> longest_streak k"
    by (simp add: scenario_ledgers(2) habit_with_def)
  have post: "habits (snd (execute ascii_check (Check_in 0 []) (ctx_of 1 172800000 3) ?l)) 0
     = Some (habit_with 2 2 2 (Some 172800000))"
    by (simp add: scenario_ledgers(2) ctx_of_def new_habit_def habit_with_def
        ascii_check_def check_in_unfold update_streak_def
        update_statistics_def notes_option_def and_then_def add_u64_def sub_u64_def
        get_date_timestamp_def MS_PER_DAY_def Let_def)
  show ?thesis
    using c hist h pre post
      current_streak_le_longest_streak [of ascii_check "[]" "[]" "[]" 0 1 True "ctx_of 1 0 0"
        new_habit 0 "[HabitCreated 0 1 []]" "run_log ascii_check (take 3 scenario) genesis"
        ?l 0 "habit_with 1 1 1 (Some 86400000)" ?l "Check_in 0 []" "ctx_of 1 172800000 3" 0
        "habit_with 2 2 2 (Some 172800000)"]
    by blast
qed

lemma unat_le_by_sum: "unat (b :: u64) = unat a + n \<Longrightarrow> a \<le> b"
  by (simp add: word_le_nat_alt)

lemma execute_counters:
  assumes pre: "habits l hid = Some h" and fresh: "fresh_id ctx \<noteq> hid"
    and post: "habits (snd (execute U c ctx l)) hid = Some h'"
  shows "longest_streak h \<le> longest_streak h' \<and>
         unat (total_checkins h') = unat (total_checkins h)
           + (if successful_check_in hid (c, ctx, fst (execute U c ctx l)) then 1 else 0)"
proof (cases c)
  case (Create_habit a b c' d e f)
  then show ?thesis using pre fresh post
    by (auto simp: create_habit_unfold split: if_splits)
next
  case (Check_in i n)
  note c = Check_in
  show ?thesis
  proof (cases "i = hid")
    case False
    then show ?thesis using c pre post
      by (auto split: option.splits sum.splits)
  next
    case True
    note i = True
    show ?thesis
    proof (cases "check_in U h n ctx")
      case (Inl e)
      then show ?thesis using c i pre post by simp
    next
      case (Inr res)
      then obtain k r evs where res: "check_in U h n ctx = Inr (k, r, evs)"
        by (cases res) auto
      then have "h' = k" using c i pre post by simp
      then show ?thesis
        using c i pre res check_in_Inr(3,5) [OF res] by simp
    qed
  qed
next
  case (Update_habit i a b c' d e f)
  then show ?thesis using pre post
    by (auto simp: update_habit_unfold split: option.splits if_splits)
next
  case (Delete_habit i)
  then show ?thesis using pre post
    by (auto simp: delete_habit_def split: option.splits if_splits)
qed

text \<open>
  Claim C6. In a reachable ledger the total of a habit is the number of successful
  \<open>check_in\<close> calls on it, which is the number of receipts issued for it. Across any one
  further transaction, completed or aborted, that leaves the habit on the ledger, its
  longest streak and its total do not decrease, and the total grows by exactly 1 when the
  transaction is a successful \<open>check_in\<close> on this habit and is unchanged otherwise.
\<close>

theorem counters_are_monotonic:
  assumes "history check_utf8 log l" and "fresh_id ctx \<notin> used_ids l"
    and "habits l hid = Some habit"
  shows "unat (total_checkins habit) = check_ins_of hid log \<and>
         receipts_of hid l = check_ins_of hid log \<and>
         (habits (snd (execute check_utf8 c ctx l)) hid = Some habit' \<longrightarrow>
            longest_streak habit \<le> longest_streak habit' \<and>
            total_checkins habit \<le> total_checkins habit' \<and>
            unat (total_checkins habit') = unat (total_checkins habit)
              + (if successful_check_in hid (c, ctx, fst (execute check_utf8 c ctx l))
                 then 1 else 0))"
proof -
  have inv: "ledger_inv log l" by (rule history_inv [OF assms(1)])
  then have used: "hid \<in> used_ids l"
    and total: "unat (total_checkins habit) = check_ins_of hid log"
    and rec: "receipts_of hid l = check_ins_of hid log"
    using assms(3) by (simp_all add: ledger_inv_def)
  have fresh: "fresh_id ctx \<noteq> hid" using used assms(2) by auto
  have step: "longest_streak habit \<le> longest_streak habit' \<and>
            total_checkins habit \<le> total_checkins habit' \<and>
            unat (total_checkins habit') = unat (total_checkins habit)
              + (if successful_check_in hid (c, ctx, fst (execute check_utf8 c ctx l))
                 then 1 else 0)"
    if post: "habits (snd (execute check_utf8 c ctx l)) hid = Some habit'"
    using execute_counters [OF assms(3) fresh post] unat_le_by_sum by blast
  show ?thesis using total rec step by blast
qed

theorem counters_are_monotonic_witness:
  "history ascii_check (run_log ascii_check (take 3 scenario) genesis)
     (run ascii_check (take 3 scenario) genesis) \<and>
   fresh_id (ctx_of 1 172800000 3) \<notin> used_ids (run ascii_check (take 3 scenario) genesis) \<and>
   habits (run ascii_check (take 3 scenario) genesis) 0
     = Some (habit_with 1 1 1 (Some 86400000)) \<and>
   check_ins_of 0 (run_log ascii_check (take 3 scenario) genesis) = 1 \<and>
   receipts_of 0 (run ascii_check (take 3 scenario) genesis) = 1 \<and>
   habits (snd (execute ascii_check (Check_in 0 []) (ctx_of 1 172800000 3)
                  (run ascii_check (take 3 scenario) genesis))) 0
     = Some (habit_with 2 2 2 (Some 172800000)) \<and>
   longest_streak (habit_with 1 1 1 (Some 86400000))
     \<le> longest_streak (habit_with 2 2 2 (Some 172800000)) \<and>
   total_checkins (habit_with 1 1 1 (Some 86400000))
     \<le> total_checkins (habit_with 2 2 2 (Some 172800000)) \<and>
   unat (total_checkins (habit_with 2 2 2 (Some 172800000)))
     = unat (total_checkins (habit_with 1 1 1 (Some 86400000))) + 1"
proof -
  let ?l = "run ascii_check (take 3 scenario) genesis"
  have hist: "history ascii_check (run_log ascii_check (take 3 scenario) genesis) ?l"
    using history_run [OF history.start scenario_ledgers(4)] by simp
  have f: "fresh_id (ctx_of 1 172800000 3) \<notin> used_ids ?l"
    by (simp add: scenario_ledgers(2) ctx_of_def)
  have h: "habits ?l 0 = Some (habit_with 1 1 1 (Some 86400000))"
    by (simp add: scenario_ledgers(2))
  have ex: "execute ascii_check (Check_in 0 []) (ctx_of 1 172800000 3) ?l =
      (Success,
       \<lparr> habits = [0 \<mapsto> habit_with 2 2 2 (Some 172800000)],
         receipts = [(1, \<lparr>checkin_id = 2, habit_id = 0, date = 86400000, notes' = None\<rparr>),
                     (1, \<lparr>checkin_id = 3, habit_id = 0, date = 172800000, notes' = None\<rparr>)],
         events = [HabitCreated 0 1 [], CheckInRecorded 0 86400000 1 1,
                   CheckInRecorded 0 172800000 2 2],
         used_ids = {3, 2, 0} \<rparr>)"
    by (simp add: scenario_ledgers(2) ctx_of_def new_habit_def habit_with_def
        ascii_check_def check_in_unfold update_streak_def
        update_statistics_def notes_option_def and_then_def add_u64_def sub_u64_def
        get_date_timestamp_def MS_PER_DAY_def Let_def)
  have post: "habits (snd (execute ascii_check (Check_in 0 []) (ctx_of 1 172800000 3) ?l)) 0
     = Some (habit_with 2 2 2 (Some 172800000))"
    unfolding ex by simp
  have n: "check_ins_of 0 (run_log ascii_check (take 3 scenario) genesis) = 1"
    by (simp add: scenario_ledgers(3) check_ins_of_def)
  have s: "successful_check_in 0 (Check_in 0 [], ctx_of 1 172800000 3,
             fst (execute ascii_check (Check_in 0 []) (ctx_of 1 172800000 3) ?l))"
    unfolding ex by simp
  show ?thesis
    using hist f h post n s
      counters_are_monotonic [OF hist f h, of "Check_in 0 []" "habit_with 2 2 2 (Some 172800000)"]
    by simp
qed

end
